theory Spec2Isabelle
  imports Main
begin

section \<open>Comment keys of runs (the incremental diff engine)\<close>

text \<open>
  The source (the unit test of \<open>getCommentKey\<close>, which carries the implementation
  it mirrors from \<open>diff.ts\<close>):
  \<^verbatim>\<open>
  type CommentAnnotation = { commentId?: string; internal?: boolean };

  function hasComments(run: Run): run is RunWithComments {
    return (
      'comments' in run &&
      Array.isArray((run as Partial<RunWithComments>).comments) &&
      (run as Partial<RunWithComments>).comments!.length > 0
    );
  }

  const getCommentKey = (run: Run): string => {
    if (!hasComments(run)) return '';
    return run.comments.map((c) => `${c.commentId ?? ''}:${c.internal ? '1' : '0'}`).join('|');
  };
  \<close>
  An optional field is an \<open>option\<close>: \<open>None\<close> when the property is missing or
  \<open>undefined\<close>. The \<open>comments\<close> property of a run is typed as an array, but the tests
  also pass \<open>undefined\<close>, \<open>null\<close>, a string, a number and a plain object, so the
  field holds a value of \<open>CommentsValue\<close>, and \<open>None\<close> when the run has no such
  property. The field \<open>text\<close> of a run is \<open>runText\<close> here. A string is a list of
  characters; of the characters, only \<open>:\<close>, \<open>|\<close>, \<open>0\<close> and \<open>1\<close> matter below.
\<close>

record CommentAnnotation =
  commentId :: "string option"
  internal :: "bool option"

datatype CommentsValue =
    Undefined
  | Null
  | StringValue string
  | NumberValue int
  | ObjectValue CommentAnnotation
  | ArrayValue "CommentAnnotation list"

record Run =
  runText :: string
  fontFamily :: string
  fontSize :: nat
  comments :: "CommentsValue option"

text \<open>\<open>Array.prototype.join\<close>: the elements, with the separator between neighbours.\<close>

fun join :: "string \<Rightarrow> string list \<Rightarrow> string" where
  "join sep [] = []"
| "join sep [x] = x"
| "join sep (x # y # ys) = x @ sep @ join sep (y # ys)"

text \<open>\<open>Array.isArray(v)\<close> and the elements of \<open>v\<close> when it is an array.\<close>

fun isArray :: "CommentsValue \<Rightarrow> bool" where
  "isArray (ArrayValue cs) = True"
| "isArray v = False"

fun elements :: "CommentsValue \<Rightarrow> CommentAnnotation list" where
  "elements (ArrayValue cs) = cs"
| "elements v = []"

definition hasComments :: "Run \<Rightarrow> bool" where
  "hasComments run =
     (case comments run of
        None \<Rightarrow> False
      | Some v \<Rightarrow> isArray v \<and> length (elements v) > 0)"

text \<open>The template literal of the \<open>map\<close> callback: \<open>c.commentId ?? ''\<close>, a colon, and
  \<open>'1'\<close> when \<open>c.internal\<close> is truthy, \<open>'0'\<close> otherwise.\<close>

definition idText :: "CommentAnnotation \<Rightarrow> string" where
  "idText c = (case commentId c of None \<Rightarrow> [] | Some s \<Rightarrow> s)"

definition isInternal :: "CommentAnnotation \<Rightarrow> bool" where
  "isInternal c = (case internal c of None \<Rightarrow> False | Some b \<Rightarrow> b)"

definition commentPair :: "CommentAnnotation \<Rightarrow> string" where
  "commentPair c = idText c @ '':'' @ (if isInternal c then ''1'' else ''0'')"

definition runComments :: "Run \<Rightarrow> CommentAnnotation list" where
  "runComments run = (case comments run of None \<Rightarrow> [] | Some v \<Rightarrow> elements v)"

definition getCommentKey :: "Run \<Rightarrow> string" where
  "getCommentKey run =
     (if \<not> hasComments run then []
      else join ''|'' (map commentPair (runComments run)))"

text \<open>
  What the key records of a run: for each comment, in order, the text of its id (empty
  when the id is missing) and whether its \<open>internal\<close> flag is truthy. A run without a
  \<open>comments\<close> array has none.
\<close>

definition annotations :: "Run \<Rightarrow> (string \<times> bool) list" where
  "annotations run = map (\<lambda>c. (idText c, isInternal c)) (runComments run)"

text \<open>
  The key as the specification words it: the \<open>commentId:internalFlag\<close> pairs, in the
  order of the comments, with a \<open>|\<close> between neighbours, and the empty string when
  there is nothing to serialize.
\<close>

fun specKey :: "(string \<times> bool) list \<Rightarrow> string" where
  "specKey [] = []"
| "specKey ((i, f) # ps) =
     i @ [CHR '':'', if f then CHR ''1'' else CHR ''0'']
       @ (if ps = [] then [] else CHR ''|'' # specKey ps)"

definition pipeFree :: "Run \<Rightarrow> bool" where
  "pipeFree run = (\<forall>c \<in> set (runComments run). CHR ''|'' \<notin> set (idText c))"

text \<open>The runs of the unit tests: the fixed fields, and the comments under test.\<close>

definition testRun :: "CommentsValue option \<Rightarrow> Run" where
  "testRun c = \<lparr>runText = ''Hello'', fontFamily = ''Arial'', fontSize = 12, comments = c\<rparr>"

definition comment :: "string \<Rightarrow> bool \<Rightarrow> CommentAnnotation" where
  "comment i f = \<lparr>commentId = Some i, internal = Some f\<rparr>"

text \<open>Two runs with the same two comments in opposite orders; one id holds the
  separators.\<close>

definition swappedRunA :: Run where
  "swappedRunA = testRun (Some (ArrayValue [comment ''x:0|x'' False, comment ''x'' False]))"

definition swappedRunB :: Run where
  "swappedRunB = testRun (Some (ArrayValue [comment ''x'' False, comment ''x:0|x'' False]))"

text \<open>One comment whose id holds a \<open>|\<close>, against two separate comments.\<close>

definition pipedRun :: Run where
  "pipedRun = testRun (Some (ArrayValue [comment ''a:0|b'' False]))"

definition twoCommentsRun :: Run where
  "twoCommentsRun = testRun (Some (ArrayValue [comment ''a'' False, comment ''b'' False]))"

section \<open>The tab stop resolver\<close>

text \<open>
  \<open>calculateTabLayout\<close> and \<open>applyLayoutResult\<close> live in \<open>tabAdapter.js\<close>, which is
  not among the sources; its unit test \<open>tabAdapter.test.js\<close> is. The data below is what
  the fixtures of that test build (\<open>makeSpan\<close>, the \<open>request\<close> objects, \<open>measure\<close>,
  \<open>createNode\<close>, the \<open>result\<close> objects); the two functions are modelled from the
  specification, section 4.4. Lengths are whole numbers here, as in the fixtures.
\<close>

subsection \<open>Spans, requests and measurements\<close>

text \<open>A span as \<open>makeSpan(type, text, tabId, spanId)\<close> builds it: a text span carries
  its span id and text, a tab span its span id and tab id, a break its span id.\<close>

datatype Span =
    Text string string
  | Tab string string
  | LineBreak string
  | HardBreak string

text \<open>A tab stop \<open>{ pos, val, leader }\<close> and the indents of a request.\<close>

record TabStop =
  pos :: int
  val :: string
  leader :: string

record Indents =
  left :: int
  right :: int
  firstLine :: int
  hanging :: int

record TabLayoutRequest =
  spans :: "Span list"
  tabStops :: "TabStop list"
  paragraphWidth :: int
  defaultTabDistance :: int
  defaultLineLength :: int
  paragraphId :: string
  revision :: nat
  indentWidth :: int
  indents :: Indents

text \<open>The measurement provider: \<open>measureText(spanId, text)\<close>.\<close>

record Measure =
  measureText :: "string \<Rightarrow> string \<Rightarrow> int"

text \<open>
  An entry of the result's \<open>tabs\<close> map, \<open>{ width, height, leader }\<close>; the fixtures of
  \<open>applyLayoutResult\<close> leave \<open>height\<close> and \<open>leader\<close> out of some entries. The field
  \<open>leader\<close> of an entry is \<open>tabLeader\<close> here, the fields \<open>paragraphId\<close> and \<open>revision\<close>
  of a result are \<open>resultParagraphId\<close> and \<open>resultRevision\<close>.
\<close>

record TabEntry =
  width :: int
  height :: "string option"
  tabLeader :: "string option"

record TabLayoutResult =
  resultParagraphId :: string
  resultRevision :: nat
  tabs :: "string \<rightharpoonup> TabEntry"

text \<open>The state of the walk over the spans: the horizontal position and the tabs
  resolved so far.\<close>

record WalkState =
  currentX :: int
  resolved :: "string \<rightharpoonup> TabEntry"

subsection \<open>\<open>calculateTabLayout\<close>\<close>

text \<open>
  Modelled from the spec: the line-start offset of \<open>calculateTabLayout\<close> (the function
  is in \<open>tabAdapter.js\<close>, which is missing). The walk tracks \<open>currentX\<close> "starting at
  the line's indent offset", and a break resets it "to the line-start offset
  (indent-adjusted)"; the requests of the test carry that offset as \<open>indentWidth\<close>.
\<close>

definition lineStart :: "TabLayoutRequest \<Rightarrow> int" where
  "lineStart req = indentWidth req"

text \<open>
  Modelled from the spec: the default tab position of the missing \<open>calculateTabLayout\<close>,
  "the next multiple of \<open>defaultTabDistance\<close> past \<open>currentX\<close>, clamped to not exceed
  \<open>paragraphWidth - indents.right\<close>".
\<close>

definition nextDefaultStop :: "TabLayoutRequest \<Rightarrow> int \<Rightarrow> int" where
  "nextDefaultStop req x =
     min ((x div defaultTabDistance req + 1) * defaultTabDistance req)
         (paragraphWidth req - right (indents req))"

text \<open>
  Modelled from the spec: the target of a tab in the missing \<open>calculateTabLayout\<close>, "the
  first configured TabStop position strictly greater than \<open>currentX\<close>; if no such stop
  exists, the target is the next multiple of \<open>defaultTabDistance\<close>".
\<close>

definition tabTarget :: "TabLayoutRequest \<Rightarrow> int \<Rightarrow> int" where
  "tabTarget req x =
     (case find (\<lambda>s. pos s > x) (tabStops req) of
        Some s \<Rightarrow> pos s
      | None \<Rightarrow> nextDefaultStop req x)"

text \<open>
  Modelled from the spec: the leader of a tab in the missing \<open>calculateTabLayout\<close>. The
  leader style "is carried through untouched": it is the leader of the stop the tab
  resolves to, and there is none when the tab falls back to the default distance.
\<close>

definition tabLeaderAt :: "TabLayoutRequest \<Rightarrow> int \<Rightarrow> string option" where
  "tabLeaderAt req x = map_option leader (find (\<lambda>s. pos s > x) (tabStops req))"

text \<open>
  Modelled from the spec: one step of the walk of the missing \<open>calculateTabLayout\<close>. "A
  Text span advances \<open>currentX\<close> by its measured width." For a Tab span, "the tab's
  emitted width is \<open>target - currentX\<close>; \<open>currentX\<close> then becomes \<open>target\<close>". "A LineBreak
  or HardBreak span resets \<open>currentX\<close> to the line-start offset." Neither the
  specification nor the fixtures say where the height of an entry comes from, so an entry
  carries none.
\<close>

fun layoutSpan :: "TabLayoutRequest \<Rightarrow> Measure \<Rightarrow> WalkState \<Rightarrow> Span \<Rightarrow> WalkState" where
  "layoutSpan req m st (Text i t) = st\<lparr>currentX := currentX st + measureText m i t\<rparr>"
| "layoutSpan req m st (Tab i tid) =
     (let target = tabTarget req (currentX st);
          entry = \<lparr>width = target - currentX st, height = None,
                   tabLeader = tabLeaderAt req (currentX st)\<rparr>
      in \<lparr>currentX = target, resolved = (resolved st)(tid \<mapsto> entry)\<rparr>)"
| "layoutSpan req m st (LineBreak i) = st\<lparr>currentX := lineStart req\<rparr>"
| "layoutSpan req m st (HardBreak i) = st\<lparr>currentX := lineStart req\<rparr>"

text \<open>
  Modelled from the spec: the walk of the missing \<open>calculateTabLayout\<close> over "the
  paragraph's Span sequence in order".
\<close>

definition walkSpans :: "TabLayoutRequest \<Rightarrow> Measure \<Rightarrow> Span list \<Rightarrow> WalkState \<Rightarrow> WalkState" where
  "walkSpans req m xs st = foldl (layoutSpan req m) st xs"

text \<open>
  Modelled from the spec: \<open>calculateTabLayout(request, measure) -> {tabs}\<close>, missing
  from the sources. The walk starts at the line's indent offset with no tab resolved;
  the result carries the paragraph id and revision of the request, as the results that
  the test hands to \<open>applyLayoutResult\<close> do.
\<close>

definition calculateTabLayout :: "TabLayoutRequest \<Rightarrow> Measure \<Rightarrow> TabLayoutResult" where
  "calculateTabLayout req m =
     \<lparr>resultParagraphId = paragraphId req, resultRevision = revision req,
      tabs = resolved (walkSpans req m (spans req)
               \<lparr>currentX = lineStart req, resolved = Map.empty\<rparr>)\<rparr>"

text \<open>The breaks among the spans, and the tab ids of a span sequence.\<close>

fun isBreak :: "Span \<Rightarrow> bool" where
  "isBreak (LineBreak i) = True"
| "isBreak (HardBreak i) = True"
| "isBreak s = False"

fun tabIds :: "Span list \<Rightarrow> string list" where
  "tabIds [] = []"
| "tabIds (Tab i tid # xs) = tid # tabIds xs"
| "tabIds (s # xs) = tabIds xs"

text \<open>
  The fixtures of the test \<open>calculateTabLayout\<close>: \<open>measureText\<close> gives ten units a
  character; the request has one tab stop at 100 and a default distance of 48; the spans
  are a label, a tab and a tail, a break, and the same again.
\<close>

definition testMeasure :: Measure where
  "testMeasure = \<lparr>measureText = (\<lambda>i t. int (length t) * 10)\<rparr>"

definition testRequest :: "Span list \<Rightarrow> TabLayoutRequest" where
  "testRequest xs =
     \<lparr>spans = xs,
      tabStops = [\<lparr>pos = 100, val = ''start'', leader = ''none''\<rparr>],
      paragraphWidth = 800, defaultTabDistance = 48, defaultLineLength = 816,
      paragraphId = ''para-1'', revision = 1, indentWidth = 0,
      indents = \<lparr>left = 0, right = 0, firstLine = 0, hanging = 0\<rparr>\<rparr>"

definition lineBreakSpans :: "Span list" where
  "lineBreakSpans =
     [Text ''s1'' ''Label'', Tab ''t1'' ''para-1-tab-0'', Text ''s2'' ''Tail'',
      LineBreak ''br1'',
      Text ''s3'' ''Label'', Tab ''t2'' ''para-1-tab-1'', Text ''s4'' ''Tail'']"

definition hardBreakSpans :: "Span list" where
  "hardBreakSpans =
     [Text ''s1'' ''Label'', Tab ''t1'' ''para-1-tab-0'',
      HardBreak ''br1'',
      Text ''s2'' ''Label'', Tab ''t2'' ''para-1-tab-1'']"

subsection \<open>\<open>applyLayoutResult\<close>\<close>

text \<open>
  A node as \<open>createNode(name, children, extra)\<close> of the test builds it: the name of its
  type, its children and its \<open>nodeSize\<close>. \<open>node.forEach\<close> hands each child to the
  callback with its offset, the sizes of the children before it added up.
\<close>

datatype PMNode = PMNode string "PMNode list" nat

fun typeName :: "PMNode \<Rightarrow> string" where
  "typeName (PMNode n cs s) = n"

fun nodeSize :: "PMNode \<Rightarrow> nat" where
  "nodeSize (PMNode n cs s) = s"

text \<open>
  A decoration: the range \<open>from\<close>, \<open>to\<close> it covers (\<open>decoFrom\<close>, \<open>decoTo\<close> here) and what
  its style is made of: the width, the height when the entry has one, and the bottom
  border of the leader when the entry has one that draws a line.
\<close>

record Decoration =
  decoFrom :: nat
  decoTo :: nat
  decoWidth :: int
  decoHeight :: "string option"
  decoBorder :: "string option"

record DecoState =
  tabIndex :: nat
  decorations :: "Decoration list"

text \<open>
  The keys of the \<open>tabs\<close> map in the fixtures are \<open>`${paragraphId}-tab-${index}`\<close>, the
  index counting the tabs of the paragraph from 0 in document order; the nodes of the
  test carry no id of their own. \<open>showNat\<close> writes the index in decimal.
\<close>

definition digitChar :: "nat \<Rightarrow> char" where
  "digitChar d = ''0123456789'' ! d"

fun showNat :: "nat \<Rightarrow> string" where
  "showNat n = (if n < 10 then [digitChar n] else showNat (n div 10) @ [digitChar (n mod 10)])"

declare showNat.simps [simp del]

text \<open>
  Modelled from the spec: the id under which the missing \<open>applyLayoutResult\<close> looks a
  Tab span up in \<open>result.tabs\<close>, written as the keys of the fixtures are.
\<close>

definition makeTabId :: "string \<Rightarrow> nat \<Rightarrow> string" where
  "makeTabId pid k = pid @ ''-tab-'' @ showNat k"

text \<open>
  Modelled from the spec: the leader style of a decoration of the missing
  \<open>applyLayoutResult\<close>; the borders are those the test \<open>handles all leader styles
  correctly\<close> expects, and any other leader draws nothing.
\<close>

definition leaderBorder :: "string \<Rightarrow> string option" where
  "leaderBorder l =
     (if l = ''dot'' then Some ''border-bottom: 1px dotted black;''
      else if l = ''heavy'' then Some ''border-bottom: 2px solid black;''
      else if l = ''hyphen'' then Some ''border-bottom: 1px solid black;''
      else if l = ''middleDot'' then Some ''border-bottom: 1px dotted black; margin-bottom: 2px;''
      else if l = ''underscore'' then Some ''border-bottom: 1px solid black;''
      else None)"

text \<open>
  Modelled from the spec: the decoration the missing \<open>applyLayoutResult\<close> emits for a
  Tab span, "a positioned decoration at that span's document offset with the resolved
  width/height/leader style"; it ends where the node ends.
\<close>

definition decorate :: "nat \<Rightarrow> nat \<Rightarrow> TabEntry \<Rightarrow> Decoration" where
  "decorate p sz e =
     \<lparr>decoFrom = p, decoTo = p + sz, decoWidth = width e, decoHeight = height e,
      decoBorder = Option.bind (tabLeader e) leaderBorder\<rparr>"

text \<open>
  Modelled from the spec: what the missing \<open>applyLayoutResult\<close> does at a Tab span. The
  span takes the next index; "for each Tab span whose id is present in \<open>result.tabs\<close>"
  a decoration is emitted, and "tabs without corresponding layout data are skipped, not
  treated as errors".
\<close>

definition visitTab :: "TabLayoutResult \<Rightarrow> PMNode \<Rightarrow> nat \<Rightarrow> DecoState \<Rightarrow> DecoState" where
  "visitTab res node p st =
     (let tabId = makeTabId (resultParagraphId res) (tabIndex st);
          st' = st\<lparr>tabIndex := tabIndex st + 1\<rparr>
      in case tabs res tabId of
           None \<Rightarrow> st'
         | Some e \<Rightarrow> st'\<lparr>decorations := decorations st' @ [decorate p (nodeSize node) e]\<rparr>)"

text \<open>
  Modelled from the spec: the walk of the missing \<open>applyLayoutResult\<close>, which "walks the
  paragraph's node tree (recursing into nested run containers)". A child at offset
  \<open>off\<close> of a node at position \<open>p\<close> stands at \<open>p + off + 1\<close>, past the opening of its
  parent: the positions the test expects.
\<close>

fun walkNode :: "TabLayoutResult \<Rightarrow> PMNode \<Rightarrow> nat \<Rightarrow> DecoState \<Rightarrow> DecoState"
  and walkChildren :: "TabLayoutResult \<Rightarrow> PMNode list \<Rightarrow> nat \<Rightarrow> nat \<Rightarrow> DecoState \<Rightarrow> DecoState" where
  "walkNode res (PMNode n cs s) p st = walkChildren res cs p 0 st"
| "walkChildren res [] p off st = st"
| "walkChildren res (c # cs) p off st =
     walkChildren res cs p (off + nodeSize c)
       (if typeName c = ''tab'' then visitTab res c (p + off + 1) st
        else if typeName c = ''run'' then walkNode res c (p + off + 1) st
        else st)"

text \<open>
  Modelled from the spec: \<open>applyLayoutResult(result, paragraphNode, baseOffset)\<close>,
  missing from the sources: the decorations of the walk, in the order the tabs are met.
\<close>

definition applyLayoutResult :: "TabLayoutResult \<Rightarrow> PMNode \<Rightarrow> nat \<Rightarrow> Decoration list" where
  "applyLayoutResult res paragraph baseOffset =
     decorations (walkNode res paragraph baseOffset \<lparr>tabIndex = 0, decorations = []\<rparr>)"

text \<open>
  The Tab spans of a paragraph, in document order, each with its position and size: the
  \<open>tab\<close> nodes among the children of the paragraph and of the runs nested in it. The
  span at place \<open>k\<close> of this list has the id \<open>makeTabId paragraphId k\<close>.
\<close>

fun tabSpans :: "PMNode \<Rightarrow> nat \<Rightarrow> (nat \<times> nat) list"
  and tabSpansIn :: "PMNode list \<Rightarrow> nat \<Rightarrow> nat \<Rightarrow> (nat \<times> nat) list" where
  "tabSpans (PMNode n cs s) p = tabSpansIn cs p 0"
| "tabSpansIn [] p off = []"
| "tabSpansIn (c # cs) p off =
     (if typeName c = ''tab'' then [(p + off + 1, nodeSize c)]
      else if typeName c = ''run'' then tabSpans c (p + off + 1)
      else [])
     @ tabSpansIn cs p (off + nodeSize c)"

text \<open>
  The decorations as the specification words them: going through the Tab spans from index
  \<open>k\<close> on, one decoration for a span whose id is in the map, none for a span whose id
  is not.
\<close>

fun tabDecorations :: "TabLayoutResult \<Rightarrow> nat \<Rightarrow> (nat \<times> nat) list \<Rightarrow> Decoration list" where
  "tabDecorations res k [] = []"
| "tabDecorations res k ((p, sz) # ts) =
     (case tabs res (makeTabId (resultParagraphId res) k) of
        None \<Rightarrow> []
      | Some e \<Rightarrow> [decorate p sz e])
     @ tabDecorations res (k + 1) ts"

text \<open>
  The fixtures of the test \<open>gracefully skips tabs with missing layout data\<close>: a run with
  a tab, a text of size 2 and a second tab, and a result that knows the first tab only.
\<close>

definition leaf :: "string \<Rightarrow> nat \<Rightarrow> PMNode" where
  "leaf n s = PMNode n [] s"

definition container :: "string \<Rightarrow> PMNode list \<Rightarrow> PMNode" where
  "container n cs = PMNode n cs (sum_list (map nodeSize cs) + 2)"

definition skipParagraph :: PMNode where
  "skipParagraph =
     container ''paragraph'' [container ''run'' [leaf ''tab'' 1, leaf ''text'' 2, leaf ''tab'' 1]]"

definition skipResult :: TabLayoutResult where
  "skipResult =
     \<lparr>resultParagraphId = ''para-0'', resultRevision = 0,
      tabs = [''para-0-tab-0'' \<mapsto> \<lparr>width = 15, height = Some ''12px'', tabLeader = None\<rparr>]\<rparr>"

section \<open>Properties of the comment keys\<close>

subsection \<open>Properties of \<open>join\<close> and of the pairs\<close>

lemma join_Cons: "join sep (x # xs) = x @ (if xs = [] then [] else sep @ join sep xs)"
  by (cases xs) simp_all

lemma elements_not_array: "\<not> isArray v \<Longrightarrow> elements v = []"
  by (cases v) simp_all

lemma getCommentKey_join: "getCommentKey run = join ''|'' (map commentPair (runComments run))"
  by (cases "comments run")
     (auto simp: getCommentKey_def hasComments_def runComments_def elements_not_array)

lemma join_specKey:
  "join ''|'' (map commentPair cs) = specKey (map (\<lambda>c. (idText c, isInternal c)) cs)"
  by (induction cs) (simp_all add: join_Cons commentPair_def)

lemma split_at_sep:
  assumes "c \<notin> set a" "c \<notin> set b" "a @ c # r = b @ c # s"
  shows "a = b \<and> r = s"
  using assms
proof (induction a arbitrary: b)
  case Nil
  then show ?case by (cases b) auto
next
  case (Cons x a)
  then show ?case by (cases b) auto
qed

text \<open>Pieces that are not empty and hold no separator can be read back from their
  join.\<close>

lemma join_inj:
  assumes "\<forall>x \<in> set xs. CHR ''|'' \<notin> set x \<and> x \<noteq> []"
    and "\<forall>y \<in> set ys. CHR ''|'' \<notin> set y \<and> y \<noteq> []"
    and "join ''|'' xs = join ''|'' ys"
  shows "xs = ys"
  using assms
proof (induction xs arbitrary: ys)
  case Nil
  then show ?case by (cases ys) (auto simp: join_Cons)
next
  case (Cons x xs)
  show ?case
  proof (cases ys)
    case Nil
    with Cons.prems show ?thesis by (auto simp: join_Cons)
  next
    case (Cons y ys')
    have free: "CHR ''|'' \<notin> set x" "CHR ''|'' \<notin> set y"
      using Cons.prems Cons by simp_all
    show ?thesis
    proof (cases "xs = []")
      case True
      show ?thesis
      proof (cases "ys' = []")
        case True
        with \<open>xs = []\<close> Cons.prems Cons show ?thesis by simp
      next
        case False
        with \<open>xs = []\<close> Cons.prems Cons have "x = y @ CHR ''|'' # join ''|'' ys'"
          by (simp add: join_Cons)
        with free(1) show ?thesis by auto
      qed
    next
      case False
      show ?thesis
      proof (cases "ys' = []")
        case True
        with \<open>xs \<noteq> []\<close> Cons.prems Cons have "y = x @ CHR ''|'' # join ''|'' xs"
          by (simp add: join_Cons)
        with free(2) show ?thesis by auto
      next
        case rest: False
        with \<open>xs \<noteq> []\<close> Cons.prems Cons
        have eq: "x @ CHR ''|'' # join ''|'' xs = y @ CHR ''|'' # join ''|'' ys'"
          by (simp add: join_Cons)
        from split_at_sep[OF free eq] have heads: "x = y" and tails: "join ''|'' xs = join ''|'' ys'"
          by simp_all
        have "xs = ys'"
          using Cons.IH[of ys'] Cons.prems Cons tails by simp
        with heads Cons show ?thesis by simp
      qed
    qed
  qed
qed

lemma commentPair_inj:
  "commentPair c = commentPair d \<longleftrightarrow> idText c = idText d \<and> isInternal c = isInternal d"
  by (auto simp: commentPair_def)

lemma commentPair_pipe: "CHR ''|'' \<in> set (commentPair c) \<longleftrightarrow> CHR ''|'' \<in> set (idText c)"
  by (auto simp: commentPair_def)

lemma commentPair_nonempty: "commentPair c \<noteq> []"
  by (simp add: commentPair_def)

lemma map_commentPair_eq:
  "map commentPair cs = map commentPair ds \<longleftrightarrow>
   map (\<lambda>c. (idText c, isInternal c)) cs = map (\<lambda>c. (idText c, isInternal c)) ds"
proof (induction cs arbitrary: ds)
  case Nil
  then show ?case by auto
next
  case (Cons c cs)
  then show ?case by (cases ds) (auto simp: commentPair_inj)
qed

lemma key_inj_pipeFree:
  assumes "pipeFree r" "pipeFree r'" "getCommentKey r = getCommentKey r'"
  shows "annotations r = annotations r'"
proof -
  have "map commentPair (runComments r) = map commentPair (runComments r')"
    using assms
    by (intro join_inj)
       (auto simp: pipeFree_def commentPair_pipe commentPair_nonempty getCommentKey_join)
  then show ?thesis by (simp add: annotations_def map_commentPair_eq)
qed

lemma flags_separate:
  assumes "map idText cs = map idText ds"
    and "join ''|'' (map commentPair cs) = join ''|'' (map commentPair ds)"
  shows "map isInternal cs = map isInternal ds"
  using assms
proof (induction cs arbitrary: ds)
  case Nil
  then show ?case by simp
next
  case (Cons c cs)
  then obtain d ds' where ds: "ds = d # ds'" by (cases ds) auto
  with Cons.prems have ids: "idText c = idText d" "map idText cs = map idText ds'" by simp_all
  then have "length cs = length ds'" by (metis length_map)
  then have e: "cs = [] \<longleftrightarrow> ds' = []" by auto
  define R where "R = (if cs = [] then [] else ''|'' @ join ''|'' (map commentPair cs))"
  define R' where "R' = (if ds' = [] then [] else ''|'' @ join ''|'' (map commentPair ds'))"
  from Cons.prems(2) ds have "commentPair c @ R = commentPair d @ R'"
    by (simp add: join_Cons R_def R'_def)
  with ids(1) have "(if isInternal c then ''1'' else ''0'') @ R
      = (if isInternal d then ''1'' else ''0'') @ R'"
    by (simp add: commentPair_def)
  then have "isInternal c = isInternal d \<and> R = R'"
    by (auto split: if_splits)
  with e have "isInternal c = isInternal d
      \<and> join ''|'' (map commentPair cs) = join ''|'' (map commentPair ds')"
    by (auto simp: R_def R'_def)
  with Cons.IH[OF ids(2)] ds show ?case by simp
qed

lemma key_flags_separate:
  assumes "map fst (annotations r) = map fst (annotations r')"
    and "getCommentKey r = getCommentKey r'"
  shows "map snd (annotations r) = map snd (annotations r')"
proof -
  have "map idText (runComments r) = map idText (runComments r')"
    using assms(1) by (simp add: annotations_def comp_def)
  from flags_separate[OF this] assms(2) show ?thesis
    by (simp add: annotations_def comp_def getCommentKey_join)
qed

subsection \<open>The key of a run\<close>

text \<open>
  Claim C8, as the code has it. \<open>getCommentKey\<close> serializes the comments of a run as
  \<open>commentId:internalFlag\<close> pairs joined by \<open>|\<close>, in the order of the comments
  (\<open>specKey\<close>), and a run with no \<open>comments\<close> property or with a value that is not an
  array gets the empty key. Two runs whose comments carry the same ids in the same order
  and differ in an internal flag get different keys. Two runs whose comments differ in any
  way the key records (in particular in their order) get different keys when no
  \<open>commentId\<close> of either run holds the separator \<open>|\<close>.
\<close>

theorem getCommentKey_serializes:
  "getCommentKey r = specKey (annotations r)
   \<and> (comments r = None \<or> (\<exists>v. comments r = Some v \<and> \<not> isArray v)
      \<longrightarrow> getCommentKey r = [])
   \<and> (map fst (annotations r) = map fst (annotations r')
        \<and> map snd (annotations r) \<noteq> map snd (annotations r')
      \<longrightarrow> getCommentKey r \<noteq> getCommentKey r')
   \<and> (pipeFree r \<and> pipeFree r' \<and> annotations r \<noteq> annotations r'
      \<longrightarrow> getCommentKey r \<noteq> getCommentKey r')"
proof (intro conjI impI)
  show "getCommentKey r = specKey (annotations r)"
    by (simp add: getCommentKey_join join_specKey annotations_def)
next
  assume "comments r = None \<or> (\<exists>v. comments r = Some v \<and> \<not> isArray v)"
  then show "getCommentKey r = []"
    by (auto simp: getCommentKey_def hasComments_def)
next
  assume "map fst (annotations r) = map fst (annotations r')
        \<and> map snd (annotations r) \<noteq> map snd (annotations r')"
  then show "getCommentKey r \<noteq> getCommentKey r'"
    using key_flags_separate[of r r'] by blast
next
  assume "pipeFree r \<and> pipeFree r' \<and> annotations r \<noteq> annotations r'"
  then show "getCommentKey r \<noteq> getCommentKey r'"
    using key_inj_pipeFree[of r r'] by blast
qed

text \<open>
  The theorem at the runs of the unit tests: a run without comments, a run whose
  \<open>comments\<close> is a string, two runs that differ in one internal flag, and two runs with
  the same comments in opposite orders.
\<close>

theorem getCommentKey_serializes_witness:
  "getCommentKey (testRun None) = []
   \<and> getCommentKey (testRun (Some (StringValue ''not-an-array''))) = []
   \<and> getCommentKey (testRun (Some (ArrayValue
          [comment ''comment-1'' False, comment ''comment-2'' False])))
      \<noteq> getCommentKey (testRun (Some (ArrayValue
          [comment ''comment-1'' True, comment ''comment-2'' False])))
   \<and> getCommentKey (testRun (Some (ArrayValue
          [comment ''comment-1'' False, comment ''comment-2'' True])))
      \<noteq> getCommentKey (testRun (Some (ArrayValue
          [comment ''comment-2'' True, comment ''comment-1'' False])))
   \<and> getCommentKey (testRun (Some (ArrayValue
          [comment ''comment-1'' False, comment ''comment-2'' True])))
      = ''comment-1:0|comment-2:1''"
proof -
  let ?none = "testRun None"
  let ?str = "testRun (Some (StringValue ''not-an-array''))"
  let ?f1 = "testRun (Some (ArrayValue [comment ''comment-1'' False, comment ''comment-2'' False]))"
  let ?f2 = "testRun (Some (ArrayValue [comment ''comment-1'' True, comment ''comment-2'' False]))"
  let ?o1 = "testRun (Some (ArrayValue [comment ''comment-1'' False, comment ''comment-2'' True]))"
  let ?o2 = "testRun (Some (ArrayValue [comment ''comment-2'' True, comment ''comment-1'' False]))"
  note ev = testRun_def comment_def runComments_def annotations_def idText_def
    isInternal_def pipeFree_def
  have a: "getCommentKey ?none = []"
    using getCommentKey_serializes[of ?none ?none, THEN conjunct2, THEN conjunct1]
    by (simp add: testRun_def)
  have b: "getCommentKey ?str = []"
    using getCommentKey_serializes[of ?str ?str, THEN conjunct2, THEN conjunct1]
    by (simp add: testRun_def)
  have c: "getCommentKey ?f1 \<noteq> getCommentKey ?f2"
    using getCommentKey_serializes[of ?f1 ?f2, THEN conjunct2, THEN conjunct2, THEN conjunct1]
    by (simp add: ev)
  have d: "getCommentKey ?o1 \<noteq> getCommentKey ?o2"
    using getCommentKey_serializes[of ?o1 ?o2, THEN conjunct2, THEN conjunct2, THEN conjunct2]
    by (simp add: ev)
  have e: "getCommentKey ?o1 = ''comment-1:0|comment-2:1''"
    using getCommentKey_serializes[of ?o1 ?o1, THEN conjunct1]
    by (simp add: ev)
  from a b c d e show ?thesis by blast
qed

text \<open>
  Claim C8 as it is written fails: the comments of \<open>swappedRunA\<close> are those of
  \<open>swappedRunB\<close> in the opposite order, the key records them as different, and the two
  keys are both \<open>x:0|x:0|x:0\<close>.
\<close>

theorem getCommentKey_order_counterexample:
  "runComments swappedRunA = rev (runComments swappedRunB)
   \<and> annotations swappedRunA \<noteq> annotations swappedRunB
   \<and> getCommentKey swappedRunA = ''x:0|x:0|x:0''
   \<and> getCommentKey swappedRunB = ''x:0|x:0|x:0''"
  by (simp add: swappedRunA_def swappedRunB_def testRun_def comment_def runComments_def
      annotations_def idText_def isInternal_def getCommentKey_def hasComments_def
      commentPair_def)

text \<open>
  Claim C9. \<open>getCommentKey\<close> is not injective: the separators are not escaped inside a
  \<open>commentId\<close>, so a run with one comment whose id holds a \<open>|\<close> and a run with two
  separate comments, which the key records as different, get the same key.
\<close>

theorem getCommentKey_not_injective:
  "\<exists>r r'. length (runComments r) = 1 \<and> length (runComments r') = 2
      \<and> annotations r \<noteq> annotations r' \<and> getCommentKey r = getCommentKey r'"
  by (rule exI[of _ pipedRun], rule exI[of _ twoCommentsRun])
     (simp add: pipedRun_def twoCommentsRun_def testRun_def comment_def runComments_def
        annotations_def idText_def isInternal_def getCommentKey_def hasComments_def
        commentPair_def)

text \<open>
  Claim C10. A run whose \<open>comments\<close> is the empty array gets the empty key, the key of
  the same run without a \<open>comments\<close> property.
\<close>

theorem getCommentKey_empty_array:
  "getCommentKey (run\<lparr>comments := Some (ArrayValue [])\<rparr>) = []
   \<and> getCommentKey (run\<lparr>comments := Some (ArrayValue [])\<rparr>)
       = getCommentKey (run\<lparr>comments := None\<rparr>)"
  by (simp add: getCommentKey_def hasComments_def)

section \<open>Properties of the tab stop resolver\<close>

subsection \<open>The walk over the spans\<close>

lemma walkSpans_append:
  "walkSpans req m (xs @ ys) st = walkSpans req m ys (walkSpans req m xs st)"
  by (simp add: walkSpans_def)

lemma walkSpans_snoc: "walkSpans req m (xs @ [s]) st = layoutSpan req m (walkSpans req m xs st) s"
  by (simp add: walkSpans_def)

lemma layoutSpan_break: "isBreak b \<Longrightarrow> currentX (layoutSpan req m st b) = lineStart req"
  by (cases b) simp_all

text \<open>Where a span leaves \<open>currentX\<close> depends on where it found it, and on nothing else
  of the state.\<close>

lemma layoutSpan_currentX:
  "currentX st = currentX st' \<Longrightarrow>
   currentX (layoutSpan req m st s) = currentX (layoutSpan req m st' s)"
  by (cases s) (simp_all add: Let_def)

lemma walkSpans_currentX:
  "currentX st = currentX st' \<Longrightarrow>
   currentX (walkSpans req m xs st) = currentX (walkSpans req m xs st')"
proof (induction xs rule: rev_induct)
  case Nil
  then show ?case by (simp add: walkSpans_def)
next
  case (snoc s xs)
  then have "currentX (walkSpans req m xs st) = currentX (walkSpans req m xs st')"
    by simp
  then show ?case
    unfolding walkSpans_snoc by (rule layoutSpan_currentX)
qed

lemma tabIds_snoc: "set (tabIds (xs @ [s])) = set (tabIds xs) \<union> set (tabIds [s])"
  by (induction xs rule: tabIds.induct) auto

text \<open>The entry of a tab of \<open>xs\<close> after the walk over \<open>xs\<close> depends on the position the
  walk started from only.\<close>

lemma walkSpans_resolved:
  assumes "currentX st = currentX st'" and "t \<in> set (tabIds xs)"
  shows "resolved (walkSpans req m xs st) t = resolved (walkSpans req m xs st') t"
  using assms(2)
proof (induction xs rule: rev_induct)
  case Nil
  then show ?case by simp
next
  case (snoc s xs)
  have x: "currentX (walkSpans req m xs st) = currentX (walkSpans req m xs st')"
    using assms(1) by (rule walkSpans_currentX)
  show ?case
  proof (cases s)
    case (Tab i tid)
    show ?thesis
    proof (cases "tid = t")
      case True
      with Tab x show ?thesis by (simp add: walkSpans_snoc Let_def)
    next
      case False
      with Tab snoc.prems have "t \<in> set (tabIds xs)" by (simp add: tabIds_snoc)
      with snoc.IH Tab False show ?thesis by (simp add: walkSpans_snoc Let_def)
    qed
  next
    case (Text i u)
    with snoc.prems have "t \<in> set (tabIds xs)" by (simp add: tabIds_snoc)
    with snoc.IH Text show ?thesis by (simp add: walkSpans_snoc)
  next
    case (LineBreak i)
    with snoc.prems have "t \<in> set (tabIds xs)" by (simp add: tabIds_snoc)
    with snoc.IH LineBreak show ?thesis by (simp add: walkSpans_snoc)
  next
    case (HardBreak i)
    with snoc.prems have "t \<in> set (tabIds xs)" by (simp add: tabIds_snoc)
    with snoc.IH HardBreak show ?thesis by (simp add: walkSpans_snoc)
  qed
qed

text \<open>The walk reads the spans it is given, not those of the request.\<close>

lemma lineStart_spans: "lineStart (req\<lparr>spans := xs\<rparr>) = lineStart req"
  by (simp add: lineStart_def)

lemma nextDefaultStop_spans: "nextDefaultStop (req\<lparr>spans := xs\<rparr>) = nextDefaultStop req"
  by (simp add: nextDefaultStop_def fun_eq_iff)

lemma tabTarget_spans: "tabTarget (req\<lparr>spans := xs\<rparr>) = tabTarget req"
  by (simp add: tabTarget_def nextDefaultStop_spans fun_eq_iff split: option.split)

lemma tabLeaderAt_spans: "tabLeaderAt (req\<lparr>spans := xs\<rparr>) = tabLeaderAt req"
  by (simp add: tabLeaderAt_def fun_eq_iff)

lemma layoutSpan_spans: "layoutSpan (req\<lparr>spans := xs\<rparr>) m st s = layoutSpan req m st s"
  by (cases s) (simp_all add: lineStart_spans tabTarget_spans tabLeaderAt_spans)

lemma walkSpans_spans: "walkSpans (req\<lparr>spans := xs\<rparr>) m ys st = walkSpans req m ys st"
proof -
  have "layoutSpan (req\<lparr>spans := xs\<rparr>) m = layoutSpan req m"
    by (simp add: fun_eq_iff layoutSpan_spans)
  then show ?thesis by (simp add: walkSpans_def)
qed

lemma calculateTabLayout_tabs:
  "tabs (calculateTabLayout (req\<lparr>spans := xs\<rparr>) m) =
   resolved (walkSpans req m xs \<lparr>currentX = lineStart req, resolved = Map.empty\<rparr>)"
  by (simp add: calculateTabLayout_def walkSpans_spans lineStart_spans)

text \<open>
  Claim C5, against the model of the specification. After a LineBreak or HardBreak span
  \<open>currentX\<close> is the line-start offset, whatever the spans before the break and the state
  the walk started in. So the entry of a tab after the break is the entry it gets when
  the spans after the break are laid out alone: the width accumulated before the break
  does not reach it. In the scenario of the test (label, tab, tail, line break, label,
  tab, tail; one tab stop at 100; default distance 48) both tabs get the width 50.
\<close>

theorem break_resets_currentX:
  "(isBreak b \<longrightarrow> currentX (walkSpans req m (xs @ [b]) st) = lineStart req)
   \<and> (isBreak b \<and> t \<in> set (tabIds ys) \<longrightarrow>
        tabs (calculateTabLayout (req\<lparr>spans := xs @ b # ys\<rparr>) m) t
        = tabs (calculateTabLayout (req\<lparr>spans := ys\<rparr>) m) t)
   \<and> map_option width
        (tabs (calculateTabLayout (testRequest lineBreakSpans) testMeasure) ''para-1-tab-0'')
      = Some 50
   \<and> map_option width
        (tabs (calculateTabLayout (testRequest lineBreakSpans) testMeasure) ''para-1-tab-1'')
      = Some 50"
proof (intro conjI impI)
  assume "isBreak b"
  then show "currentX (walkSpans req m (xs @ [b]) st) = lineStart req"
    by (simp add: walkSpans_snoc layoutSpan_break)
next
  assume a: "isBreak b \<and> t \<in> set (tabIds ys)"
  let ?init = "\<lparr>currentX = lineStart req, resolved = Map.empty\<rparr>"
  have "xs @ b # ys = (xs @ [b]) @ ys" by simp
  then have "walkSpans req m (xs @ b # ys) ?init
      = walkSpans req m ys (walkSpans req m (xs @ [b]) ?init)"
    by (simp only: walkSpans_append)
  moreover have "currentX (walkSpans req m (xs @ [b]) ?init) = currentX ?init"
    using a by (simp add: walkSpans_snoc layoutSpan_break)
  ultimately have "resolved (walkSpans req m (xs @ b # ys) ?init) t
      = resolved (walkSpans req m ys ?init) t"
    using a walkSpans_resolved[of "walkSpans req m (xs @ [b]) ?init" ?init t ys req m]
    by simp
  then show "tabs (calculateTabLayout (req\<lparr>spans := xs @ b # ys\<rparr>) m) t
        = tabs (calculateTabLayout (req\<lparr>spans := ys\<rparr>) m) t"
    by (simp add: calculateTabLayout_tabs)
next
  show "map_option width
        (tabs (calculateTabLayout (testRequest lineBreakSpans) testMeasure) ''para-1-tab-0'')
      = Some 50"
    by code_simp
next
  show "map_option width
        (tabs (calculateTabLayout (testRequest lineBreakSpans) testMeasure) ''para-1-tab-1'')
      = Some 50"
    by code_simp
qed

text \<open>
  The theorem at the second test, \<open>resets currentX after hard breaks\<close>: after the hard
  break the walk is back at 0, and the second tab gets the width 50 that it gets when the
  second line is laid out alone.
\<close>

theorem break_resets_currentX_witness:
  "currentX (walkSpans (testRequest hardBreakSpans) testMeasure
       [Text ''s1'' ''Label'', Tab ''t1'' ''para-1-tab-0'', HardBreak ''br1'']
       \<lparr>currentX = 0, resolved = Map.empty\<rparr>) = 0
   \<and> map_option width
        (tabs (calculateTabLayout (testRequest hardBreakSpans) testMeasure) ''para-1-tab-1'')
      = Some 50"
proof -
  let ?xs = "[Text ''s1'' ''Label'', Tab ''t1'' ''para-1-tab-0'']"
  let ?ys = "[Text ''s2'' ''Label'', Tab ''t2'' ''para-1-tab-1'']"
  let ?b = "HardBreak ''br1''"
  let ?req = "testRequest hardBreakSpans"
  let ?st = "\<lparr>currentX = 0, resolved = Map.empty\<rparr>"
  note T = break_resets_currentX[of ?b ?req testMeasure ?xs ?st "''para-1-tab-1''" ?ys]
  have a: "currentX (walkSpans ?req testMeasure (?xs @ [?b]) ?st) = 0"
    using T[THEN conjunct1] by (simp add: lineStart_def testRequest_def)
  have "tabs (calculateTabLayout (?req\<lparr>spans := ?xs @ ?b # ?ys\<rparr>) testMeasure) ''para-1-tab-1''
        = tabs (calculateTabLayout (?req\<lparr>spans := ?ys\<rparr>) testMeasure) ''para-1-tab-1''"
    using T[THEN conjunct2, THEN conjunct1] by simp
  moreover have "?req\<lparr>spans := ?xs @ ?b # ?ys\<rparr> = ?req"
    by (simp add: testRequest_def hardBreakSpans_def)
  moreover have "map_option width
      (tabs (calculateTabLayout (?req\<lparr>spans := ?ys\<rparr>) testMeasure) ''para-1-tab-1'') = Some 50"
    by code_simp
  ultimately have "map_option width
      (tabs (calculateTabLayout ?req testMeasure) ''para-1-tab-1'') = Some 50"
    by simp
  with a show ?thesis by simp
qed

subsection \<open>The decorations of a paragraph\<close>

lemma tabDecorations_Cons:
  "tabDecorations res k (t # ts) = tabDecorations res k [t] @ tabDecorations res (Suc k) ts"
  by (cases t) simp

lemma tabDecorations_append:
  "tabDecorations res k (ts @ us)
   = tabDecorations res k ts @ tabDecorations res (k + length ts) us"
  by (induction ts arbitrary: k) auto

lemma visitTab_eq:
  "visitTab res c p st =
     \<lparr>tabIndex = tabIndex st + 1,
      decorations = decorations st @ tabDecorations res (tabIndex st) [(p, nodeSize c)]\<rparr>"
  by (simp add: visitTab_def Let_def split: option.split)

text \<open>The walk, started in any state, counts the Tab spans it meets and appends their
  decorations.\<close>

lemma walk_eq:
  "walkNode res nd p st =
     \<lparr>tabIndex = tabIndex st + length (tabSpans nd p),
      decorations = decorations st @ tabDecorations res (tabIndex st) (tabSpans nd p)\<rparr>"
  "walkChildren res cs p off st =
     \<lparr>tabIndex = tabIndex st + length (tabSpansIn cs p off),
      decorations = decorations st @ tabDecorations res (tabIndex st) (tabSpansIn cs p off)\<rparr>"
proof (induction res nd p st and res cs p off st rule: walkNode_walkChildren.induct)
  case (1 res n cs s p st)
  then show ?case by simp
next
  case (2 res p off st)
  then show ?case by simp
next
  case (3 res c cs p off st)
  show ?case
  proof (cases "typeName c = ''tab''")
    case True
    then show ?thesis
      using "3.IH"(2)
      by (simp add: visitTab_eq
            tabDecorations_Cons[of res _ _ "tabSpansIn cs p (off + nodeSize c)"]
            del: tabDecorations.simps)
  next
    case False
    show ?thesis
    proof (cases "typeName c = ''run''")
      case True
      with False show ?thesis
        using "3.IH" by (simp add: tabDecorations_append)
    next
      case other: False
      with False show ?thesis
        using "3.IH"(2) by simp
    qed
  qed
qed

lemma length_tabDecorations:
  "length (tabDecorations res k ts) =
     length (filter (\<lambda>j. makeTabId (resultParagraphId res) j \<in> dom (tabs res))
               [k..<k + length ts])"
proof (induction ts arbitrary: k)
  case Nil
  then show ?case by simp
next
  case (Cons t ts)
  obtain p sz where t: "t = (p, sz)" by (cases t)
  have "[k..<k + length (t # ts)] = k # [k + 1..<(k + 1) + length ts]"
    using upt_conv_Cons[of k "k + Suc (length ts)"] by simp
  with Cons[of "k + 1"] t show ?case
    by (auto split: option.split)
qed

lemma showNat_digit: "n < 10 \<Longrightarrow> showNat n = [digitChar n]"
  by (simp add: showNat.simps)

text \<open>
  Claim C6, against the model of the specification. For every result and paragraph,
  \<open>applyLayoutResult\<close> returns a list of decorations (the model has no failing branch: a
  lookup that finds nothing emits nothing), and the list is, in the order of the Tab
  spans of the paragraph, one decoration for each span whose id is a key of
  \<open>result.tabs\<close> and none for the others; so there are as many decorations as there
  are Tab spans with a key in the map.
\<close>

theorem applyLayoutResult_decorations:
  "applyLayoutResult res paragraph baseOffset
     = tabDecorations res 0 (tabSpans paragraph baseOffset)
   \<and> length (applyLayoutResult res paragraph baseOffset) =
       length (filter (\<lambda>k. makeTabId (resultParagraphId res) k \<in> dom (tabs res))
                 [0..<length (tabSpans paragraph baseOffset)])"
proof -
  have "applyLayoutResult res paragraph baseOffset
      = tabDecorations res 0 (tabSpans paragraph baseOffset)"
    by (simp add: applyLayoutResult_def walk_eq(1))
  then show ?thesis
    using length_tabDecorations[of res 0 "tabSpans paragraph baseOffset"] by simp
qed

text \<open>
  The theorem at the test \<open>gracefully skips tabs with missing layout data\<close>: the
  paragraph has two Tab spans, at 2 and at 5; the result knows the first only, and the
  one decoration covers 2 to 3 with the width 15.
\<close>

theorem applyLayoutResult_decorations_witness:
  "map (\<lambda>d. (decoFrom d, decoTo d, decoWidth d)) (applyLayoutResult skipResult skipParagraph 0)
     = [(2, 3, 15)]
   \<and> tabSpans skipParagraph 0 = [(2, 1), (5, 1)]"
  using applyLayoutResult_decorations[of skipResult skipParagraph 0]
  by (simp add: skipParagraph_def skipResult_def container_def leaf_def makeTabId_def
      showNat_digit digitChar_def decorate_def)

end
